theory Spec2Isabelle
  imports Complex_Main "HOL-Library.Char_ord" "HOL-Library.List_Lexorder"
begin

section \<open>Data model\<close>

text \<open>
  The module works on pandas data frames. A frame is modelled the way pandas stores it:
  a list of row labels (\<open>df.index\<close>), a list of column labels (\<open>df.columns\<close>) and a
  row-major matrix of cell values (\<open>df.values\<close>). Cell values are IEEE doubles in the
  program; they are idealised as real numbers here, so rounding is not modelled, and the
  only non-finite values that appear are the ones a division by zero creates (they are
  modelled explicitly where the code divides).
\<close>

record ('r, 'c) frame =
  index :: "'r list"
  columns :: "'c list"
  vals :: "real list list"

definition wf_frame :: "('r, 'c) frame \<Rightarrow> bool" where
  "wf_frame df \<longleftrightarrow>
     length (vals df) = length (index df) \<and>
     list_all (\<lambda>row. length row = length (columns df)) (vals df)"

text \<open>The exceptions the module and the library calls it makes can raise.\<close>

datatype error =
    ValueError | KeyError | TypeError | NameError | UnboundLocalError
  | AxisError | FileNotFoundError

section \<open>Numerical helpers of the libraries\<close>

definition mean :: "real list \<Rightarrow> real" where
  "mean xs = sum_list xs / real (length xs)"

text \<open>\<open>numpy.var\<close> with its default \<open>ddof = 0\<close>: the population variance.\<close>

definition variance :: "real list \<Rightarrow> real" where
  "variance xs = mean (map (\<lambda>x. (x - mean xs)\<^sup>2) xs)"

definition ncols :: "real list list \<Rightarrow> nat" where
  "ncols arr = (case arr of [] \<Rightarrow> 0 | r # _ \<Rightarrow> length r)"

definition tr :: "nat \<Rightarrow> real list list \<Rightarrow> real list list" where
  "tr m arr = map (\<lambda>j. map (\<lambda>r. r ! j) arr) [0..<m]"

text \<open>\<open>df.transpose()\<close> (\<open>df.T\<close>): labels swapped, matrix transposed.\<close>

definition transposed :: "('r, 'c) frame \<Rightarrow> ('c, 'r) frame" where
  "transposed f =
     \<lparr>index = columns f, columns = index f, vals = tr (length (columns f)) (vals f)\<rparr>"

text \<open>
  \<open>sklearn.utils.check_array\<close>, called by every estimator used here, rejects an array
  with no sample (row) or no feature (column).
\<close>

definition check_array :: "real list list \<Rightarrow> error + real list list" where
  "check_array arr = (if arr = [] \<or> ncols arr = 0 then Inl ValueError else Inr arr)"

text \<open>numpy accepts the axes \<open>0, 1, -1, -2\<close> of a matrix and raises on any other.\<close>

definition norm_axis :: "int \<Rightarrow> nat option" where
  "norm_axis ax =
     (if ax = 0 \<or> ax = - 2 then Some 0
      else if ax = 1 \<or> ax = - 1 then Some 1 else None)"

text \<open>
  \<open>sklearn.preprocessing.scale\<close>: centre to the mean and divide by the (population)
  standard deviation; a zero deviation is replaced by 1.
\<close>

definition zscore1 :: "real list \<Rightarrow> real list" where
  "zscore1 xs =
     (let m = mean xs; s = sqrt (variance xs); s' = (if s = 0 then 1 else s)
      in map (\<lambda>x. (x - m) / s') xs)"

definition scale :: "real list list \<Rightarrow> int \<Rightarrow> error + real list list" where
  "scale X ax =
     (case check_array X of
        Inl e \<Rightarrow> Inl e
      | Inr arr \<Rightarrow>
          (case norm_axis ax of
             None \<Rightarrow> Inl AxisError
           | Some a \<Rightarrow>
               if a = 0 then Inr (tr (length arr) (map zscore1 (tr (ncols arr) arr)))
               else Inr (map zscore1 arr)))"

text \<open>
  \<open>MinMaxScaler().fit_transform\<close> with the default range \<open>(0, 1)\<close>, per column:
  \<open>scale_ = 1 / range\<close> where a zero range is replaced by 1,
  \<open>min_ = 0 - data_min * scale_\<close>, and the result is \<open>X * scale_ + min_\<close>.
\<close>

definition minmax1 :: "real list \<Rightarrow> real list" where
  "minmax1 xs =
     (let data_min = Min (set xs); data_max = Max (set xs);
          data_range = data_max - data_min;
          scl = 1 / (if data_range = 0 then 1 else data_range);
          mn = 0 - data_min * scl
      in map (\<lambda>x. x * scl + mn) xs)"

definition fit_transform :: "real list list \<Rightarrow> error + real list list" where
  "fit_transform X =
     (case check_array X of
        Inl e \<Rightarrow> Inl e
      | Inr arr \<Rightarrow> Inr (tr (length arr) (map minmax1 (tr (ncols arr) arr))))"

section \<open>Normalisation: \<open>df_normalization\<close>\<close>

text \<open>
  \<open>df_normalization\<close> assigns to attributes of a frame object, so frames live in a
  store here: a list of frames addressed by position. Creating a frame appends to the
  store. Labels are Python objects: names, or the positions \<open>0, 1, ...\<close> that
  \<open>pd.DataFrame(array)\<close> gives a frame built from a bare array.
\<close>

datatype label = Name string | Pos nat

type_synonym addr = nat
type_synonym store = "(label, label) frame list"

definition alloc :: "store \<Rightarrow> (label, label) frame \<Rightarrow> addr \<times> store" where
  "alloc h f = (length h, h @ [f])"

definition new_DataFrame :: "store \<Rightarrow> real list list \<Rightarrow> addr \<times> store" where
  "new_DataFrame h arr =
     alloc h \<lparr>index = map Pos [0..<length arr], columns = map Pos [0..<ncols arr],
              vals = arr\<rparr>"

definition df_copy :: "store \<Rightarrow> addr \<Rightarrow> addr \<times> store" where
  "df_copy h a = alloc h (h ! a)"

definition df_transpose :: "store \<Rightarrow> addr \<Rightarrow> addr \<times> store" where
  "df_transpose h a = alloc h (transposed (h ! a))"

text \<open>
  The two attribute assignments that end the function. The local \<open>df_norm\<close> may be
  unbound (\<open>None\<close>); pandas refuses labels whose number differs from the axis length.
\<close>

definition set_columns :: "store \<Rightarrow> addr \<Rightarrow> label list \<Rightarrow> error + store" where
  "set_columns h a ls =
     (if length ls = length (columns (h ! a))
      then Inr (h[a := (h ! a)\<lparr>columns := ls\<rparr>]) else Inl ValueError)"

definition set_index :: "store \<Rightarrow> addr \<Rightarrow> label list \<Rightarrow> error + store" where
  "set_index h a ls =
     (if length ls = length (index (h ! a))
      then Inr (h[a := (h ! a)\<lparr>index := ls\<rparr>]) else Inl ValueError)"

definition relabel :: "store \<Rightarrow> addr option \<Rightarrow> addr \<Rightarrow> (error + addr) \<times> store" where
  "relabel h df_norm df =
     (case df_norm of
        None \<Rightarrow> (Inl UnboundLocalError, h)
      | Some a \<Rightarrow>
          (case set_columns h a (columns (h ! df)) of
             Inl e \<Rightarrow> (Inl e, h)
           | Inr h1 \<Rightarrow>
               (case set_index h1 a (index (h1 ! df)) of
                  Inl e \<Rightarrow> (Inl e, h1)
                | Inr h2 \<Rightarrow> (Inr a, h2))))"

definition df_normalization ::
  "store \<Rightarrow> addr \<Rightarrow> string \<Rightarrow> int \<Rightarrow> (error + addr) \<times> store" where
  "df_normalization h df scaling axis =
     (if scaling = ''zscore'' then
        (case scale (vals (h ! df)) axis of
           Inl e \<Rightarrow> (Inl e, h)
         | Inr arr \<Rightarrow>
             (let (a, h1) = new_DataFrame h arr in relabel h1 (Some a) df))
      else if scaling = ''minmax'' then
        (let (a0, h0) = (if axis = 1 then df_transpose h df else df_copy h df) in
         case fit_transform (vals (h0 ! a0)) of
           Inl e \<Rightarrow> (Inl e, h0)
         | Inr arr \<Rightarrow>
             (let (a1, h1) = new_DataFrame h0 arr;
                  (a2, h2) = (if axis = 1 then df_transpose h1 a1 else (a1, h1))
              in relabel h2 (Some a2) df))
      else relabel h None df)"



text \<open>A two-gene, two-sample table whose first column is constant.\<close>

definition T1 :: "(label, label) frame" where
  "T1 = \<lparr>index = [Name ''g1'', Name ''g2''], columns = [Name ''s1'', Name ''s2''],
         vals = [[3, 5], [3, 9]]\<rparr>"

section \<open>Reading the expression file: \<open>read_pancancer_rna_file\<close>\<close>

text \<open>
  What \<open>pd.read_csv\<close> parses from a tab-separated file: the header names and the body,
  row by row; a cell is text, a number, or missing. The file system gives, for a path,
  the parsed content or the error the reader raises (no such file, malformed content).
  Every call of the reader is recorded in the world's log, so that the order of reading
  and validating can be stated.
\<close>

datatype cell = Txt string | Num real | Missing

record csv =
  header :: "string list"
  body :: "cell list list"

record world =
  files :: "string \<Rightarrow> error + csv"
  reads :: "string list"

definition read_csv :: "world \<Rightarrow> string \<Rightarrow> (error + csv) \<times> world" where
  "read_csv w path = (files w path, w\<lparr>reads := reads w @ [path]\<rparr>)"

text \<open>
  \<open>astype(str)\<close> on a cell. How Python prints a number is a parameter \<open>fmt\<close> of the
  model; a missing value prints as \<open>nan\<close>.
\<close>

fun py_str :: "(real \<Rightarrow> string) \<Rightarrow> cell \<Rightarrow> cell" where
  "py_str fmt (Txt s) = Txt s"
| "py_str fmt (Num x) = Txt (fmt x)"
| "py_str fmt Missing = Txt ''nan''"

definition astype_str :: "(real \<Rightarrow> string) \<Rightarrow> string list \<Rightarrow> csv \<Rightarrow> csv" where
  "astype_str fmt names t =
     t\<lparr>body := map (\<lambda>row. map (\<lambda>(n, c). if n \<in> set names then py_str fmt c else c)
                               (zip (header t) row)) (body t)\<rparr>"

fun index_of :: "'a \<Rightarrow> 'a list \<Rightarrow> nat option" where
  "index_of x [] = None"
| "index_of x (y # ys) =
     (if x = y then Some 0 else map_option Suc (index_of x ys))"

text \<open>The frame the function returns: gene identifiers as row labels, mixed cells.\<close>

record rna_frame =
  rindex :: "cell list"
  rcolumns :: "string list"
  rcells :: "cell list list"

text \<open>\<open>rna.set_index([key]).drop([other], axis=1)\<close>, both columns being present.\<close>

definition set_index_drop :: "string \<Rightarrow> string \<Rightarrow> csv \<Rightarrow> rna_frame" where
  "set_index_drop key other t =
     \<lparr>rindex = map (\<lambda>row. row ! the (index_of key (header t))) (body t),
      rcolumns = filter (\<lambda>n. n \<noteq> key \<and> n \<noteq> other) (header t),
      rcells = map (\<lambda>row. map snd (filter (\<lambda>(n, c). n \<noteq> key \<and> n \<noteq> other)
                                           (zip (header t) row))) (body t)\<rparr>"

definition read_pancancer_rna_file ::
  "(real \<Rightarrow> string) \<Rightarrow> world \<Rightarrow> string \<Rightarrow> string \<Rightarrow> (error + rna_frame) \<times> world" where
  "read_pancancer_rna_file fmt w rna_file_path identifier =
     (let (r, w1) = read_csv w rna_file_path in
      case r of
        Inl e \<Rightarrow> (Inl e, w1)
      | Inr rna0 \<Rightarrow>
          if \<not> (''Hugo_Symbol'' \<in> set (header rna0) \<and> ''Entrez_Gene_Id'' \<in> set (header rna0))
          then (Inl KeyError, w1)
          else
            (let rna = astype_str fmt [''Hugo_Symbol'', ''Entrez_Gene_Id''] rna0 in
             if identifier = ''hugo''
             then (Inr (set_index_drop ''Hugo_Symbol'' ''Entrez_Gene_Id'' rna), w1)
             else if identifier = ''entrez''
             then (Inr (set_index_drop ''Entrez_Gene_Id'' ''Hugo_Symbol'' rna), w1)
             else (Inl ValueError, w1)))"

text \<open>A file system with one well-formed expression file.\<close>

definition F1 :: csv where
  "F1 = \<lparr>header = [''Hugo_Symbol'', ''Entrez_Gene_Id'', ''P1''],
         body = [[Txt ''TP53'', Num 7157, Num 2]]\<rparr>"

definition W1 :: world where
  "W1 = \<lparr>files = (\<lambda>p. if p = ''rna.txt'' then Inr F1 else Inl FileNotFoundError),
         reads = []\<rparr>"

section \<open>Long-format pairing: \<open>predicted_truth_bycell\<close>\<close>

text \<open>
  The names bound at module level: the module has no import outside its functions, so
  they are the functions it defines. A function body also sees its own imports, and
  \<open>predicted_truth_bycell\<close> imports \<open>pd\<close> only. (The built-in names are left out:
  none of them is \<open>np\<close>.)
\<close>

definition module_globals :: "string list" where
  "module_globals =
     [''read_pancancer_rna_file'', ''read_lm22_file'', ''df_normalization'',
      ''keep_common_genes'', ''find_up_down_genes_from_sig'',
      ''get_top_ranked_genes_from_sig'', ''variance_threshold_selector'',
      ''read_ssGSEA_up_genes'', ''read_custom_geneset'', ''corr_table'',
      ''corr_mean_std'', ''flatten_corr_per_cell'', ''predicted_truth_bycell'']"

definition lookup_name :: "string list \<Rightarrow> string \<Rightarrow> error + unit" where
  "lookup_name locals n =
     (if n \<in> set locals \<or> n \<in> set module_globals then Inr () else Inl NameError)"

text \<open>\<open>df[c]\<close>: the column labelled \<open>c\<close> (column labels being distinct), or a key error.\<close>

definition column_of :: "('r, 'c) frame \<Rightarrow> 'c \<Rightarrow> error + real list" where
  "column_of df c =
     (case index_of c (columns df) of
        None \<Rightarrow> Inl KeyError
      | Some j \<Rightarrow> Inr (map (\<lambda>row. row ! j) (vals df)))"

text \<open>\<open>df[cs]\<close> for a list of labels: fails on the first missing one.\<close>

fun columns_of :: "('r, 'c) frame \<Rightarrow> 'c list \<Rightarrow> error + real list list" where
  "columns_of df [] = Inr []"
| "columns_of df (c # cs) =
     (case column_of df c of
        Inl e \<Rightarrow> Inl e
      | Inr col \<Rightarrow> (case columns_of df cs of Inl e \<Rightarrow> Inl e | Inr cols \<Rightarrow> Inr (col # cols)))"

record long_table =
  method_col :: "real list"
  truth_col :: "real list"
  cell_col :: "string list"

text \<open>The loop that fills the three columns, one category at a time.\<close>

fun fill_long ::
  "('r, string) frame \<Rightarrow> ('r, string) frame \<Rightarrow> string list \<Rightarrow> long_table \<Rightarrow>
   error + long_table" where
  "fill_long method_freqs exp_freqs [] acc = Inr acc"
| "fill_long method_freqs exp_freqs (c # cs) acc =
     (case column_of method_freqs c of
        Inl e \<Rightarrow> Inl e
      | Inr mcol \<Rightarrow>
          (case column_of exp_freqs c of
             Inl e \<Rightarrow> Inl e
           | Inr tcol \<Rightarrow>
               fill_long method_freqs exp_freqs cs
                 \<lparr>method_col = method_col acc @ mcol,
                  truth_col = truth_col acc @ tcol,
                  cell_col = cell_col acc @ replicate (length (index exp_freqs)) c\<rparr>))"

text \<open>
  The function, line by line: the concatenation of the two selections (a key error when
  a category is not a column), the \<open>Method\<close> column whose length must be that of the
  concatenation, the call \<open>np.zeros\<close> (with \<open>np\<close> looked up among the names the body
  sees), then the loop and the three column assignments, whose lengths must be that of
  the zero frame.
\<close>

definition predicted_truth_bycell ::
  "string \<Rightarrow> ('r, string) frame \<Rightarrow> ('r, string) frame \<Rightarrow> string list \<Rightarrow>
   error + long_table" where
  "predicted_truth_bycell method method_freqs exp_freqs cell_types =
     (case columns_of method_freqs cell_types of
        Inl e \<Rightarrow> Inl e
      | Inr msel \<Rightarrow>
     (case columns_of exp_freqs cell_types of
        Inl e \<Rightarrow> Inl e
      | Inr esel \<Rightarrow>
     if length (index method_freqs) + length (index exp_freqs)
          \<noteq> length (index exp_freqs) + length (index exp_freqs)
     then Inl ValueError
     else
     (case lookup_name [''pd''] ''np'' of
        Inl e \<Rightarrow> Inl e
      | Inr _ \<Rightarrow>
     (case fill_long method_freqs exp_freqs cell_types
             \<lparr>method_col = [], truth_col = [], cell_col = []\<rparr> of
        Inl e \<Rightarrow> Inl e
      | Inr t \<Rightarrow>
          if length (method_col t) = length (index exp_freqs) * length cell_types \<and>
             length (truth_col t) = length (index exp_freqs) * length cell_types
          then Inr t else Inl ValueError))))"

text \<open>Estimates and ground truth for two samples and one category.\<close>

definition M1 :: "(string, string) frame" where
  "M1 = \<lparr>index = [''s1'', ''s2''], columns = [''T''], vals = [[1/4], [1/2]]\<rparr>"

definition E1 :: "(string, string) frame" where
  "E1 = \<lparr>index = [''s1'', ''s2''], columns = [''T''], vals = [[1/5], [3/5]]\<rparr>"

section \<open>Correlation tables: \<open>corr_table\<close>\<close>

text \<open>
  The four result frames are created empty (every entry missing) over given row and
  column labels and filled by label with \<open>.loc[row, column] = value\<close>, so their entries
  are a map from label pairs to values.
\<close>

record ('a, 'm) corr_frame =
  cindex :: "'a list"
  ccolumns :: "'m list"
  entries :: "'a \<times> 'm \<Rightarrow> real option"

definition empty_frame :: "'a list \<Rightarrow> 'm list \<Rightarrow> ('a, 'm) corr_frame" where
  "empty_frame rows cols = \<lparr>cindex = rows, ccolumns = cols, entries = (\<lambda>_. None)\<rparr>"

definition loc_set :: "('a, 'm) corr_frame \<Rightarrow> 'a \<Rightarrow> 'm \<Rightarrow> real \<Rightarrow> ('a, 'm) corr_frame" where
  "loc_set f a m v = f\<lparr>entries := (entries f)((a, m) \<mapsto> v)\<rparr>"

definition np_abs :: "('a, 'm) corr_frame \<Rightarrow> ('a, 'm) corr_frame" where
  "np_abs f = f\<lparr>entries := (\<lambda>k. map_option abs (entries f k))\<rparr>"

text \<open>
  The local state of the function: the four frames and the loop variable \<open>cell\<close>, which
  is unbound (\<open>None\<close>) until the loop over the categories binds it and keeps its last
  value afterwards.
\<close>

record ('s, 'c, 'm) corr_state =
  p_corr_per_cell :: "('c, 'm) corr_frame"
  p_corr_per_sample :: "('s, 'm) corr_frame"
  s_corr_per_cell :: "('c, 'm) corr_frame"
  s_corr_per_sample :: "('s, 'm) corr_frame"
  cell :: "'c option"

text \<open>
  The expression \<open>f(results[method][cell], true_freqs[cell])[0]\<close>, for \<open>f\<close> one of the two
  correlation functions of scipy (parameters of the model: each returns a coefficient
  or raises). \<open>results[method]\<close> is evaluated before the variable \<open>cell\<close> is read.
\<close>

definition corr_expr ::
  "(real list \<Rightarrow> real list \<Rightarrow> error + real) \<Rightarrow> ('m \<Rightarrow> ('s, 'c) frame option) \<Rightarrow>
   ('s, 'c) frame \<Rightarrow> 'm \<Rightarrow> 'c option \<Rightarrow> error + real" where
  "corr_expr f results true_freqs method cellvar =
     (case results method of
        None \<Rightarrow> Inl KeyError
      | Some fr \<Rightarrow>
          (case cellvar of
             None \<Rightarrow> Inl UnboundLocalError
           | Some c \<Rightarrow>
               (case column_of fr c of
                  Inl e \<Rightarrow> Inl e
                | Inr x \<Rightarrow>
                    (case column_of true_freqs c of
                       Inl e \<Rightarrow> Inl e
                     | Inr y \<Rightarrow> f x y))))"

fun cell_loop ::
  "(real list \<Rightarrow> real list \<Rightarrow> error + real) \<Rightarrow> (real list \<Rightarrow> real list \<Rightarrow> error + real) \<Rightarrow>
   ('m \<Rightarrow> ('s, 'c) frame option) \<Rightarrow> ('s, 'c) frame \<Rightarrow> 'm \<Rightarrow> 'c list \<Rightarrow>
   ('s, 'c, 'm) corr_state \<Rightarrow> error + ('s, 'c, 'm) corr_state" where
  "cell_loop pearsonr spearmanr results true_freqs method [] st = Inr st"
| "cell_loop pearsonr spearmanr results true_freqs method (c # cs) st =
     (case corr_expr pearsonr results true_freqs method (Some c) of
        Inl e \<Rightarrow> Inl e
      | Inr p \<Rightarrow>
          (case corr_expr spearmanr results true_freqs method (Some c) of
             Inl e \<Rightarrow> Inl e
           | Inr s \<Rightarrow>
               cell_loop pearsonr spearmanr results true_freqs method cs
                 (st\<lparr>cell := Some c,
                     p_corr_per_cell := loc_set (p_corr_per_cell st) c method p,
                     s_corr_per_cell := loc_set (s_corr_per_cell st) c method s\<rparr>)))"

fun sample_loop ::
  "(real list \<Rightarrow> real list \<Rightarrow> error + real) \<Rightarrow> (real list \<Rightarrow> real list \<Rightarrow> error + real) \<Rightarrow>
   ('m \<Rightarrow> ('s, 'c) frame option) \<Rightarrow> ('s, 'c) frame \<Rightarrow> 'm \<Rightarrow> 's list \<Rightarrow>
   ('s, 'c, 'm) corr_state \<Rightarrow> error + ('s, 'c, 'm) corr_state" where
  "sample_loop pearsonr spearmanr results true_freqs method [] st = Inr st"
| "sample_loop pearsonr spearmanr results true_freqs method (i # is) st =
     (case corr_expr pearsonr results true_freqs method (cell st) of
        Inl e \<Rightarrow> Inl e
      | Inr p \<Rightarrow>
          (case corr_expr spearmanr results true_freqs method (cell st) of
             Inl e \<Rightarrow> Inl e
           | Inr s \<Rightarrow>
               sample_loop pearsonr spearmanr results true_freqs method is
                 (st\<lparr>p_corr_per_sample := loc_set (p_corr_per_sample st) i method p,
                     s_corr_per_sample := loc_set (s_corr_per_sample st) i method s\<rparr>)))"

fun method_loop ::
  "(real list \<Rightarrow> real list \<Rightarrow> error + real) \<Rightarrow> (real list \<Rightarrow> real list \<Rightarrow> error + real) \<Rightarrow>
   ('m \<Rightarrow> ('s, 'c) frame option) \<Rightarrow> 'c list \<Rightarrow> ('s, 'c) frame \<Rightarrow> 'm list \<Rightarrow>
   ('s, 'c, 'm) corr_state \<Rightarrow> error + ('s, 'c, 'm) corr_state" where
  "method_loop pearsonr spearmanr results cell_types true_freqs [] st = Inr st"
| "method_loop pearsonr spearmanr results cell_types true_freqs (m # ms) st =
     (case cell_loop pearsonr spearmanr results true_freqs m cell_types st of
        Inl e \<Rightarrow> Inl e
      | Inr st1 \<Rightarrow>
          (case sample_loop pearsonr spearmanr results true_freqs m (index true_freqs) st1 of
             Inl e \<Rightarrow> Inl e
           | Inr st2 \<Rightarrow>
               method_loop pearsonr spearmanr results cell_types true_freqs ms st2))"

definition corr_table ::
  "(real list \<Rightarrow> real list \<Rightarrow> error + real) \<Rightarrow> (real list \<Rightarrow> real list \<Rightarrow> error + real) \<Rightarrow>
   'm list \<Rightarrow> ('m \<Rightarrow> ('s, 'c) frame option) \<Rightarrow> 'c list \<Rightarrow> ('s, 'c) frame \<Rightarrow>
   error + (('c, 'm) corr_frame \<times> ('s, 'm) corr_frame \<times>
            ('c, 'm) corr_frame \<times> ('s, 'm) corr_frame)" where
  "corr_table pearsonr spearmanr methods results cell_types true_freqs =
     (case method_loop pearsonr spearmanr results cell_types true_freqs methods
             \<lparr>p_corr_per_cell = empty_frame cell_types methods,
              p_corr_per_sample = empty_frame (index true_freqs) methods,
              s_corr_per_cell = empty_frame cell_types methods,
              s_corr_per_sample = empty_frame (index true_freqs) methods,
              cell = None\<rparr> of
        Inl e \<Rightarrow> Inl e
      | Inr st \<Rightarrow>
          Inr (np_abs (p_corr_per_cell st), np_abs (p_corr_per_sample st),
               np_abs (s_corr_per_cell st), np_abs (s_corr_per_sample st)))"

text \<open>The value of that expression as an optional entry (nothing when it raises).\<close>

definition corr_val ::
  "(real list \<Rightarrow> real list \<Rightarrow> error + real) \<Rightarrow> ('m \<Rightarrow> ('s, 'c) frame option) \<Rightarrow>
   ('s, 'c) frame \<Rightarrow> 'm \<Rightarrow> 'c option \<Rightarrow> real option" where
  "corr_val f results true_freqs method cellvar =
     (case corr_expr f results true_freqs method cellvar of
        Inl e \<Rightarrow> None
      | Inr v \<Rightarrow> Some v)"

section \<open>Variance threshold: \<open>variance_threshold_selector\<close>\<close>

text \<open>
  \<open>VarianceThreshold(threshold).fit(X)\<close> of sklearn, on a matrix of samples by features:
  it rejects a negative threshold and an empty matrix, takes the population variance of
  each feature (for the threshold 0, the smaller of the variance and the peak-to-peak
  range), and raises when no feature has a variance above the threshold.
  \<open>get_support(indices=True)\<close> is then the positions of the features whose variance is
  strictly above the threshold.
\<close>

definition ptp :: "real list \<Rightarrow> real" where
  "ptp xs = Max (set xs) - Min (set xs)"

definition feature_variance :: "real \<Rightarrow> real list \<Rightarrow> real" where
  "feature_variance threshold xs =
     (if threshold = 0 then min (variance xs) (ptp xs) else variance xs)"

definition selector_fit :: "real \<Rightarrow> real list list \<Rightarrow> error + real list" where
  "selector_fit threshold X =
     (if threshold < 0 then Inl ValueError
      else case check_array X of
        Inl e \<Rightarrow> Inl e
      | Inr arr \<Rightarrow>
          (let variances = map (feature_variance threshold) (tr (ncols arr) arr)
           in if list_all (\<lambda>v. v \<le> threshold) variances then Inl ValueError
              else Inr variances))"

definition get_support :: "real \<Rightarrow> real list \<Rightarrow> nat list" where
  "get_support threshold variances =
     filter (\<lambda>j. threshold < variances ! j) [0..<length variances]"

text \<open>
  \<open>df[labels]\<close> for a list of labels that are all column labels of \<open>df\<close>: selection is by
  label, so each label brings every column that carries it.
\<close>

definition select_columns :: "('r, 'c) frame \<Rightarrow> 'c list \<Rightarrow> ('r, 'c) frame" where
  "select_columns df labels =
     (let pos = concat (map (\<lambda>l. filter (\<lambda>j. columns df ! j = l)
                                      [0..<length (columns df)]) labels)
      in \<lparr>index = index df, columns = map (\<lambda>j. columns df ! j) pos,
          vals = map (\<lambda>row. map (\<lambda>j. row ! j) pos) (vals df)\<rparr>)"

definition variance_threshold_selector ::
  "('r, 'c) frame \<Rightarrow> real \<Rightarrow> error + ('r, 'c) frame" where
  "variance_threshold_selector data0 threshold =
     (let data = transposed data0 in
      case selector_fit threshold (vals data) of
        Inl e \<Rightarrow> Inl e
      | Inr variances \<Rightarrow>
          (let support = get_support threshold variances;
               data_red = select_columns data (map (\<lambda>j. columns data ! j) support)
           in Inr (transposed data_red)))"

text \<open>The rows of a frame with their labels, and the rows a predicate keeps.\<close>

definition labelled_rows :: "('r, 'c) frame \<Rightarrow> ('r \<times> real list) list" where
  "labelled_rows df = zip (index df) (vals df)"



section \<open>Shared genes: \<open>keep_common_genes\<close>\<close>

text \<open>
  The index of \<open>pd.merge(a, b, how='inner', left_index=True, right_index=True)\<close>: one
  entry for every pair of a row of \<open>a\<close> and a row of \<open>b\<close> with the same label.
\<close>

definition merge_index :: "('r, 'c) frame \<Rightarrow> ('r, 'd) frame \<Rightarrow> 'r list" where
  "merge_index a b = concat (map (\<lambda>k. filter (\<lambda>k'. k' = k) (index b)) (index a))"

text \<open>The labelled rows that \<open>df.loc[labels]\<close> selects.\<close>

definition rows_for :: "('r, 'c) frame \<Rightarrow> 'r list \<Rightarrow> ('r \<times> real list) list" where
  "rows_for df labels =
     concat (map (\<lambda>k. filter (\<lambda>(l, row). l = k) (labelled_rows df)) labels)"

text \<open>
  \<open>df.loc[labels]\<close>: for each label in turn, every row that carries it; a key error when
  a label is not in the index.
\<close>

definition loc_rows :: "('r, 'c) frame \<Rightarrow> 'r list \<Rightarrow> error + ('r, 'c) frame" where
  "loc_rows df labels =
     (if \<exists>k\<in>set labels. k \<notin> set (index df) then Inl KeyError
      else
        (let rows = rows_for df labels
         in Inr \<lparr>index = map fst rows, columns = columns df, vals = map snd rows\<rparr>))"

text \<open>
  \<open>df.sort_index()\<close>: the rows in ascending order of their labels. Rows with equal
  labels are kept in their order here; the theorems below are about the labels, which
  do not depend on that choice.
\<close>

definition sort_index :: "('r::linorder, 'c) frame \<Rightarrow> ('r, 'c) frame" where
  "sort_index df =
     (let rows = sort_key fst (labelled_rows df)
      in \<lparr>index = map fst rows, columns = columns df, vals = map snd rows\<rparr>)"

definition keep_common_genes ::
  "('r::linorder, 'c) frame \<Rightarrow> ('r, 'd) frame \<Rightarrow> error + (('r, 'c) frame \<times> ('r, 'd) frame)" where
  "keep_common_genes rna_df sig_df =
     (let shared_index = merge_index rna_df sig_df in
      case loc_rows rna_df shared_index of
        Inl e \<Rightarrow> Inl e
      | Inr rna_df_red \<Rightarrow>
          (case loc_rows sig_df shared_index of
             Inl e \<Rightarrow> Inl e
           | Inr sig_df_red \<Rightarrow> Inr (sort_index rna_df_red, sort_index sig_df_red)))"

text \<open>
  An expression table and a signature table; \<open>K3\<close> is the expression table with the
  gene \<open>a\<close> measured twice.
\<close>

definition K1 :: "(string, string) frame" where
  "K1 = \<lparr>index = [''c'', ''a'', ''b''], columns = [''p1''], vals = [[3], [1], [2]]\<rparr>"

definition K2 :: "(string, string) frame" where
  "K2 = \<lparr>index = [''a'', ''d'', ''c''], columns = [''T''], vals = [[10], [40], [30]]\<rparr>"

definition K3 :: "(string, string) frame" where
  "K3 = \<lparr>index = [''a'', ''a'', ''c''], columns = [''p1''], vals = [[1], [2], [3]]\<rparr>"

section \<open>Up- and down-regulated genes: \<open>find_up_down_genes_from_sig\<close>\<close>

















section \<open>Top-ranked genes: \<open>get_top_ranked_genes_from_sig\<close>\<close>












section \<open>Normalisation: shapes, store and values\<close>

lemma length_tr [simp]: "length (tr m arr) = m"
  by (simp add: tr_def)

lemma ncols_tr: "0 < m \<Longrightarrow> ncols (tr m arr) = length arr"
  by (cases m) (simp_all add: tr_def ncols_def upt_conv_Cons del: upt_Suc)

lemma length_zscore1 [simp]: "length (zscore1 xs) = length xs"
  by (simp add: zscore1_def Let_def)

lemma length_minmax1 [simp]: "length (minmax1 xs) = length xs"
  by (simp add: minmax1_def Let_def)

lemma ncols_map_len: "(\<And>xs. length (f xs) = length xs) \<Longrightarrow> ncols (map f arr) = ncols arr"
  by (cases arr) (simp_all add: ncols_def)

lemma ncols_wf:
  "wf_frame df \<Longrightarrow> index df \<noteq> [] \<Longrightarrow> ncols (vals df) = length (columns df)"
  by (cases "vals df") (auto simp: wf_frame_def ncols_def)

lemma scale_shape:
  assumes "scale X ax = Inr Y"
  shows "length Y = length X \<and> ncols Y = ncols X"
proof -
  from assms have ne: "X \<noteq> []" "0 < ncols X"
    by (auto simp: scale_def check_array_def split: if_splits)
  from assms obtain a where a: "norm_axis ax = Some a"
    by (auto simp: scale_def check_array_def split: if_splits option.splits)
  show ?thesis
  proof (cases "a = 0")
    case True
    with assms a ne have "Y = tr (length X) (map zscore1 (tr (ncols X) X))"
      by (auto simp: scale_def check_array_def)
    with ne show ?thesis by (cases X) (simp_all add: ncols_tr)
  next
    case False
    with assms a ne have "Y = map zscore1 X"
      by (auto simp: scale_def check_array_def)
    then show ?thesis by (simp add: ncols_map_len)
  qed
qed

lemma fit_transform_shape:
  assumes "fit_transform X = Inr Y"
  shows "length Y = length X \<and> ncols Y = ncols X"
proof -
  from assms have ne: "X \<noteq> []" "0 < ncols X"
    by (auto simp: fit_transform_def check_array_def split: if_splits)
  with assms have "Y = tr (length X) (map minmax1 (tr (ncols X) X))"
    by (auto simp: fit_transform_def check_array_def)
  with ne show ?thesis by (cases X) (simp_all add: ncols_tr)
qed

lemma scale_returns:
  "X \<noteq> [] \<Longrightarrow> 0 < ncols X \<Longrightarrow> ax = 0 \<or> ax = 1 \<Longrightarrow> \<exists>Y. scale X ax = Inr Y"
  by (auto simp: scale_def check_array_def norm_axis_def)

lemma fit_transform_returns:
  "X \<noteq> [] \<Longrightarrow> 0 < ncols X \<Longrightarrow> \<exists>Y. fit_transform X = Inr Y"
  by (auto simp: fit_transform_def check_array_def)

text \<open>Store reasoning\<close>

lemma relabel_Some:
  assumes "a < length h" "df < length h" "a \<noteq> df"
    "length (columns (h ! a)) = length (columns (h ! df))"
    "length (index (h ! a)) = length (index (h ! df))"
  shows "relabel h (Some a) df =
    (Inr a, h[a := (h ! a)\<lparr>columns := columns (h ! df), index := index (h ! df)\<rparr>])"
  using assms by (simp add: relabel_def set_columns_def set_index_def)

lemma relabel_frame:
  assumes "relabel h v df = (r, h')"
  shows "length h' = length h"
    and "\<And>b. v \<noteq> Some b \<Longrightarrow> h' ! b = h ! b"
  using assms
  by (auto simp: relabel_def set_columns_def set_index_def
      split: option.splits if_splits sum.splits)

lemma relabel_result:
  assumes "relabel h (Some a) df = (Inr r, h')" "a < length h" "a \<noteq> df"
  shows "r = a \<and> columns (h' ! a) = columns (h ! df) \<and> index (h' ! a) = index (h ! df)"
  using assms
  by (auto simp: relabel_def set_columns_def set_index_def
      split: option.splits if_splits sum.splits)



lemma alloc_nth: "alloc h f = (a, h') \<Longrightarrow> a = length h \<and> h' = h @ [f]"
  by (auto simp: alloc_def)

lemma relabel_ext:
  assumes "relabel (h @ hs) (Some a) df = (r, h')" "length h \<le> a" "df < length h"
    "a < length (h @ hs)"
  shows "\<forall>b<length h. h' ! b = h ! b"
    and "\<forall>x. r = Inr x \<longrightarrow> length h \<le> x \<and> index (h' ! x) = index (h ! df)
            \<and> columns (h' ! x) = columns (h ! df)"
proof -
  show "\<forall>b<length h. h' ! b = h ! b"
  proof (intro allI impI)
    fix b assume b: "b < length h"
    with assms(2) have "Some a \<noteq> Some b" by simp
    from relabel_frame(2)[OF assms(1) this] b show "h' ! b = h ! b"
      by (simp add: nth_append)
  qed
  show "\<forall>x. r = Inr x \<longrightarrow> length h \<le> x \<and> index (h' ! x) = index (h ! df)
            \<and> columns (h' ! x) = columns (h ! df)"
  proof (intro allI impI)
    fix x assume "r = Inr x"
    with assms(1) have rl: "relabel (h @ hs) (Some a) df = (Inr x, h')" by simp
    from assms(2,3) have "a \<noteq> df" by simp
    from relabel_result[OF rl assms(4) this] assms(2,3)
    show "length h \<le> x \<and> index (h' ! x) = index (h ! df)
            \<and> columns (h' ! x) = columns (h ! df)"
      by (simp add: nth_append)
  qed
qed

lemma df_normalization_zscore:
  "df_normalization h df ''zscore'' axis =
     (case scale (vals (h ! df)) axis of
        Inl e \<Rightarrow> (Inl e, h)
      | Inr arr \<Rightarrow>
          relabel (h @ [\<lparr>index = map Pos [0..<length arr], columns = map Pos [0..<ncols arr],
              vals = arr\<rparr>]) (Some (length h)) df)"
  by (simp add: df_normalization_def new_DataFrame_def alloc_def split: sum.splits)

lemma df_normalization_minmax0:
  "axis \<noteq> 1 \<Longrightarrow> df_normalization h df ''minmax'' axis =
     (case fit_transform (vals (h ! df)) of
        Inl e \<Rightarrow> (Inl e, h @ [h ! df])
      | Inr arr \<Rightarrow>
          relabel (h @ [h ! df, \<lparr>index = map Pos [0..<length arr],
              columns = map Pos [0..<ncols arr], vals = arr\<rparr>]) (Some (Suc (length h))) df)"
  by (simp add: df_normalization_def new_DataFrame_def alloc_def df_copy_def
      split: sum.splits)

lemma df_normalization_minmax1:
  "df_normalization h df ''minmax'' 1 =
     (case fit_transform (vals (transposed (h ! df))) of
        Inl e \<Rightarrow> (Inl e, h @ [transposed (h ! df)])
      | Inr arr \<Rightarrow>
          relabel (h @ [transposed (h ! df),
             \<lparr>index = map Pos [0..<length arr],
              columns = map Pos [0..<ncols arr], vals = arr\<rparr>,
             transposed \<lparr>index = map Pos [0..<length arr],
              columns = map Pos [0..<ncols arr], vals = arr\<rparr>])
            (Some (Suc (Suc (length h)))) df)"
  by (simp add: df_normalization_def new_DataFrame_def alloc_def df_transpose_def
      transposed_def nth_append split: sum.splits)



lemma df_normalization_frame:
  assumes "df < length h" "scaling = ''zscore'' \<or> scaling = ''minmax''"
    "df_normalization h df scaling axis = (r, h')"
  shows "(\<forall>b<length h. h' ! b = h ! b) \<and>
         (\<forall>x. r = Inr x \<longrightarrow> length h \<le> x \<and> index (h' ! x) = index (h ! df)
            \<and> columns (h' ! x) = columns (h ! df))"
proof -
  consider (z) "scaling = ''zscore''" | (m0) "scaling = ''minmax''" "axis \<noteq> 1"
    | (m1) "scaling = ''minmax''" "axis = 1"
    using assms(2) by blast
  then show ?thesis
  proof cases
    case z
    show ?thesis
    proof (cases "scale (vals (h ! df)) axis")
      case (Inl e)
      with z assms(3) show ?thesis by (auto simp: df_normalization_zscore)
    next
      case (Inr arr)
      with z assms(3) have
        "relabel (h @ [\<lparr>index = map Pos [0..<length arr], columns = map Pos [0..<ncols arr],
              vals = arr\<rparr>]) (Some (length h)) df = (r, h')"
        by (simp add: df_normalization_zscore)
      from relabel_ext[OF this _ assms(1)] show ?thesis by simp
    qed
  next
    case m0
    show ?thesis
    proof (cases "fit_transform (vals (h ! df))")
      case (Inl e)
      with m0 assms(3) show ?thesis by (auto simp: df_normalization_minmax0 nth_append)
    next
      case (Inr arr)
      with m0 assms(3) have
        "relabel (h @ [h ! df, \<lparr>index = map Pos [0..<length arr],
              columns = map Pos [0..<ncols arr], vals = arr\<rparr>]) (Some (Suc (length h))) df
         = (r, h')"
        by (simp add: df_normalization_minmax0)
      from relabel_ext[OF this _ assms(1)] show ?thesis by simp
    qed
  next
    case m1
    show ?thesis
    proof (cases "fit_transform (vals (transposed (h ! df)))")
      case (Inl e)
      with m1 assms(3) show ?thesis by (auto simp: df_normalization_minmax1 nth_append)
    next
      case (Inr arr)
      with m1 assms(3) have
        "relabel (h @ [transposed (h ! df),
             \<lparr>index = map Pos [0..<length arr],
              columns = map Pos [0..<ncols arr], vals = arr\<rparr>,
             transposed \<lparr>index = map Pos [0..<length arr],
              columns = map Pos [0..<ncols arr], vals = arr\<rparr>])
            (Some (Suc (Suc (length h)))) df = (r, h')"
        by (simp add: df_normalization_minmax1)
      from relabel_ext[OF this _ assms(1)] show ?thesis by simp
    qed
  qed
qed

lemma ncols_transposed:
  "wf_frame f \<Longrightarrow> columns f \<noteq> [] \<Longrightarrow> ncols (vals (transposed f)) = length (index f)"
  by (simp add: transposed_def ncols_tr wf_frame_def)

lemma df_normalization_returns:
  assumes "df < length h" "scaling = ''zscore'' \<or> scaling = ''minmax''"
    "wf_frame (h ! df)" "index (h ! df) \<noteq> []" "columns (h ! df) \<noteq> []"
    "axis = 0 \<or> axis = 1"
  shows "\<exists>a. fst (df_normalization h df scaling axis) = Inr a"
proof -
  have v: "vals (h ! df) \<noteq> []" using assms(3,4) by (auto simp: wf_frame_def)
  have nc: "ncols (vals (h ! df)) = length (columns (h ! df))"
    using assms(3,4) by (rule ncols_wf)
  have ln: "length (vals (h ! df)) = length (index (h ! df))"
    using assms(3) by (simp add: wf_frame_def)
  consider (z) "scaling = ''zscore''" | (m0) "scaling = ''minmax''" "axis = 0"
    | (m1) "scaling = ''minmax''" "axis = 1"
    using assms(2,6) by blast
  then show ?thesis
  proof cases
    case z
    from scale_returns[OF v _ assms(6)] nc assms(5)
    obtain Y where Y: "scale (vals (h ! df)) axis = Inr Y" by auto
    from scale_shape[OF Y] nc ln assms(1) z Y show ?thesis
      by (simp add: df_normalization_zscore relabel_Some nth_append)
  next
    case m0
    from fit_transform_returns[OF v] nc assms(5)
    obtain Y where Y: "fit_transform (vals (h ! df)) = Inr Y" by auto
    from fit_transform_shape[OF Y] nc ln assms(1) m0 Y show ?thesis
      by (simp add: df_normalization_minmax0 relabel_Some nth_append)
  next
    case m1
    have v': "vals (transposed (h ! df)) \<noteq> []"
      using assms(5) by (auto simp: transposed_def tr_def)
    have nc': "ncols (vals (transposed (h ! df))) = length (index (h ! df))"
      using assms(3,5) by (rule ncols_transposed)
    from fit_transform_returns[OF v'] nc' assms(4)
    obtain Y where Y: "fit_transform (vals (transposed (h ! df))) = Inr Y" by auto
    have "length Y = length (columns (h ! df))"
      using fit_transform_shape[OF Y] by (simp add: transposed_def)
    with fit_transform_shape[OF Y] nc' assms(1) m1 Y show ?thesis
      by (simp add: df_normalization_minmax1 relabel_Some nth_append transposed_def)
  qed
qed






lemma tr_nth: "j < m \<Longrightarrow> i < length arr \<Longrightarrow> tr m arr ! j ! i = arr ! i ! j"
  by (simp add: tr_def)







text \<open>
  C10. Called with a scaling argument other than \<open>zscore\<close> and \<open>minmax\<close>,
  \<open>df_normalization\<close> returns no frame and raises no validation error: no branch binds
  \<open>df_norm\<close>, so the first label assignment fails with an unbound-local error, whatever
  the table and the axis, and the store is left as it was.
\<close>

theorem df_normalization_unknown_scaling:
  "scaling \<noteq> ''zscore'' \<Longrightarrow> scaling \<noteq> ''minmax'' \<Longrightarrow>
   df_normalization h df scaling axis = (Inl UnboundLocalError, h)"
  by (simp add: df_normalization_def relabel_def)

theorem df_normalization_unknown_scaling_witness:
  "''robust'' \<noteq> ''zscore'' \<and> ''robust'' \<noteq> ''minmax'' \<and>
   df_normalization [T1] 0 ''robust'' 0 = (Inl UnboundLocalError, [T1])"
  using df_normalization_unknown_scaling [of "''robust''" "[T1]" 0 0]
  by simp

text \<open>
  C8. For \<open>zscore\<close> and \<open>minmax\<close> and any axis, every frame that was in the store before
  the call, the input among them, is the same after it (nothing is changed in place);
  the frame returned, when one is, is a new object whose row and column labels are those
  of the input; and one is returned for every well-formed table with at least one row
  and one column and axis 0 or 1 (the library rejects an empty array, and numpy an axis
  a matrix does not have).
\<close>

theorem df_normalization_labels:
  assumes "df < length h" "scaling = ''zscore'' \<or> scaling = ''minmax''"
  shows "(\<forall>b<length h. snd (df_normalization h df scaling axis) ! b = h ! b) \<and>
         (\<forall>a. fst (df_normalization h df scaling axis) = Inr a \<longrightarrow>
              length h \<le> a \<and>
              index (snd (df_normalization h df scaling axis) ! a) = index (h ! df) \<and>
              columns (snd (df_normalization h df scaling axis) ! a) = columns (h ! df)) \<and>
         (wf_frame (h ! df) \<and> index (h ! df) \<noteq> [] \<and> columns (h ! df) \<noteq> [] \<and>
          (axis = 0 \<or> axis = 1) \<longrightarrow>
            (\<exists>a. fst (df_normalization h df scaling axis) = Inr a))"
proof -
  obtain r h' where rh: "df_normalization h df scaling axis = (r, h')"
    by (cases "df_normalization h df scaling axis")
  from df_normalization_frame[OF assms rh]
    df_normalization_returns[OF assms, of axis]
  show ?thesis by (auto simp: rh)
qed

theorem df_normalization_labels_witness:
  "0 < length [T1] \<and> wf_frame T1 \<and>
   fst (df_normalization [T1] 0 ''zscore'' 1) = Inr 1 \<and>
   index (snd (df_normalization [T1] 0 ''zscore'' 1) ! 1) = index T1 \<and>
   columns (snd (df_normalization [T1] 0 ''zscore'' 1) ! 1) = columns T1 \<and>
   snd (df_normalization [T1] 0 ''zscore'' 1) ! 0 = T1"
  using df_normalization_labels [of 0 "[T1]" "''zscore''" 1]
  by (simp add: df_normalization_def T1_def alloc_def new_DataFrame_def relabel_def
      set_columns_def set_index_def scale_def check_array_def norm_axis_def ncols_def
      wf_frame_def)





section \<open>Reading and validating\<close>

text \<open>
  C7, as the code has it. For an identifier other than \<open>hugo\<close> and \<open>entrez\<close> the function
  always fails, but it reads the file first: the reader has been called once, on the
  given path, when the failure is raised. The failure is the invalid-argument error when
  the file was read and has both identifier columns; an error of the reader itself
  propagates instead, and a file without the identifier columns gives a key error.
\<close>

theorem read_pancancer_rna_file_bad_identifier:
  assumes "identifier \<noteq> ''hugo''" "identifier \<noteq> ''entrez''"
  shows "reads (snd (read_pancancer_rna_file fmt w path identifier)) = reads w @ [path] \<and>
         (\<exists>e. fst (read_pancancer_rna_file fmt w path identifier) = Inl e) \<and>
         (\<forall>t. files w path = Inr t \<and> ''Hugo_Symbol'' \<in> set (header t) \<and>
               ''Entrez_Gene_Id'' \<in> set (header t) \<longrightarrow>
               fst (read_pancancer_rna_file fmt w path identifier) = Inl ValueError) \<and>
         (\<forall>e. files w path = Inl e \<longrightarrow>
               fst (read_pancancer_rna_file fmt w path identifier) = Inl e)"
  using assms
  by (auto simp: read_pancancer_rna_file_def read_csv_def Let_def split: sum.splits)

theorem read_pancancer_rna_file_bad_identifier_witness:
  "''ensembl'' \<noteq> ''hugo'' \<and> ''ensembl'' \<noteq> ''entrez'' \<and>
   reads (snd (read_pancancer_rna_file (\<lambda>x. ''7157'') W1 ''rna.txt'' ''ensembl''))
     = [''rna.txt''] \<and>
   fst (read_pancancer_rna_file (\<lambda>x. ''7157'') W1 ''rna.txt'' ''ensembl'') = Inl ValueError"
  using read_pancancer_rna_file_bad_identifier
    [of "''ensembl''" "\<lambda>x. ''7157''" W1 "''rna.txt''"]
  by (simp add: W1_def F1_def)

text \<open>
  C7 as stated fails: with an unsupported identifier and an existing file, the file has
  been read when the error is raised; and with a missing file the error raised is the
  reader's, not the invalid-argument error.
\<close>

theorem read_pancancer_rna_file_counterexample:
  "reads W1 = [] \<and>
   read_pancancer_rna_file (\<lambda>x. ''7157'') W1 ''rna.txt'' ''ensembl''
     = (Inl ValueError, W1\<lparr>reads := [''rna.txt'']\<rparr>) \<and>
   read_pancancer_rna_file (\<lambda>x. ''7157'') W1 ''none.txt'' ''ensembl''
     = (Inl FileNotFoundError, W1\<lparr>reads := [''none.txt'']\<rparr>)"
  by (simp add: read_pancancer_rna_file_def read_csv_def W1_def F1_def)

section \<open>Long-format pairing\<close>

text \<open>
  C6. The claim is what the body sets out to do, but the function never returns a
  table: \<open>np\<close> is bound neither in the function (which imports \<open>pd\<close> only, where its
  siblings import numpy as \<open>np\<close>) nor at module level, so the call \<open>np.zeros\<close> raises a
  name error whenever the two statements before it pass, as they do on \<open>M1\<close>, \<open>E1\<close>.
\<close>

theorem predicted_truth_bycell_name_error:
  "predicted_truth_bycell method method_freqs exp_freqs cell_types \<noteq> Inr t \<and>
   predicted_truth_bycell ''A'' M1 E1 [''T''] = Inl NameError"
  by (simp add: predicted_truth_bycell_def lookup_name_def module_globals_def
      M1_def E1_def column_of_def split: sum.splits)

section \<open>Correlation tables\<close>

lemma corr_val_unbound [simp]: "corr_val f results tf m None = None"
  by (simp add: corr_val_def corr_expr_def split: option.splits)

lemma corr_val_Some: "corr_val f results tf m cv = Some v \<longleftrightarrow> corr_expr f results tf m cv = Inr v"
  by (simp add: corr_val_def split: sum.splits)

lemma cell_loop_inv:
  assumes "cell_loop P S results tf m cts st = Inr st'"
  shows "p_corr_per_sample st' = p_corr_per_sample st \<and>
         s_corr_per_sample st' = s_corr_per_sample st \<and>
         cell st' = (if cts = [] then cell st else Some (last cts)) \<and>
         (\<forall>c\<in>set cts. corr_val P results tf m (Some c) \<noteq> None \<and>
                       corr_val S results tf m (Some c) \<noteq> None) \<and>
         (\<forall>c m'. entries (p_corr_per_cell st') (c, m') =
            (if m' = m \<and> c \<in> set cts then corr_val P results tf m (Some c)
             else entries (p_corr_per_cell st) (c, m'))) \<and>
         (\<forall>c m'. entries (s_corr_per_cell st') (c, m') =
            (if m' = m \<and> c \<in> set cts then corr_val S results tf m (Some c)
             else entries (s_corr_per_cell st) (c, m')))"
  using assms
proof (induction cts arbitrary: st)
  case Nil
  then show ?case by simp
next
  case (Cons c cs)
  from Cons.prems obtain p s where
    p: "corr_expr P results tf m (Some c) = Inr p" and
    s: "corr_expr S results tf m (Some c) = Inr s" and
    rest: "cell_loop P S results tf m cs
                 (st\<lparr>cell := Some c,
                     p_corr_per_cell := loc_set (p_corr_per_cell st) c m p,
                     s_corr_per_cell := loc_set (s_corr_per_cell st) c m s\<rparr>) = Inr st'"
    by (auto split: sum.splits)
  have pv: "corr_val P results tf m (Some c) = Some p" using p by (simp add: corr_val_Some)
  have sv: "corr_val S results tf m (Some c) = Some s" using s by (simp add: corr_val_Some)
  from Cons.IH[OF rest] pv sv show ?case
    by (simp add: loc_set_def)
qed

lemma sample_loop_inv:
  assumes "sample_loop P S results tf m idx st = Inr st'"
  shows "p_corr_per_cell st' = p_corr_per_cell st \<and>
         s_corr_per_cell st' = s_corr_per_cell st \<and>
         cell st' = cell st \<and>
         (idx \<noteq> [] \<longrightarrow> corr_val P results tf m (cell st) \<noteq> None \<and>
                       corr_val S results tf m (cell st) \<noteq> None) \<and>
         (\<forall>i m'. entries (p_corr_per_sample st') (i, m') =
            (if m' = m \<and> i \<in> set idx then corr_val P results tf m (cell st)
             else entries (p_corr_per_sample st) (i, m'))) \<and>
         (\<forall>i m'. entries (s_corr_per_sample st') (i, m') =
            (if m' = m \<and> i \<in> set idx then corr_val S results tf m (cell st)
             else entries (s_corr_per_sample st) (i, m')))"
  using assms
proof (induction idx arbitrary: st)
  case Nil
  then show ?case by simp
next
  case (Cons i "is")
  from Cons.prems obtain p s where
    p: "corr_expr P results tf m (cell st) = Inr p" and
    s: "corr_expr S results tf m (cell st) = Inr s" and
    rest: "sample_loop P S results tf m is
                 (st\<lparr>p_corr_per_sample := loc_set (p_corr_per_sample st) i m p,
                     s_corr_per_sample := loc_set (s_corr_per_sample st) i m s\<rparr>) = Inr st'"
    by (auto split: sum.splits)
  have pv: "corr_val P results tf m (cell st) = Some p" using p by (simp add: corr_val_Some)
  have sv: "corr_val S results tf m (cell st) = Some s" using s by (simp add: corr_val_Some)
  from Cons.IH[OF rest] pv sv show ?case
    by (simp add: loc_set_def)
qed



lemma method_step:
  assumes "method_loop P S results cts tf (m # ms) st = Inr st'"
  obtains st1 st2 where
    "cell_loop P S results tf m cts st = Inr st1"
    "sample_loop P S results tf m (index tf) st1 = Inr st2"
    "method_loop P S results cts tf ms st2 = Inr st'"
  using assms by (auto split: sum.splits)

lemma method_loop_other:
  assumes "method_loop P S results cts tf ms st = Inr st'" "m \<notin> set ms"
  shows "entries (p_corr_per_sample st') (i, m) = entries (p_corr_per_sample st) (i, m) \<and>
         entries (s_corr_per_sample st') (i, m) = entries (s_corr_per_sample st) (i, m) \<and>
         entries (p_corr_per_cell st') (c, m) = entries (p_corr_per_cell st) (c, m) \<and>
         entries (s_corr_per_cell st') (c, m) = entries (s_corr_per_cell st) (c, m)"
  using assms
proof (induction ms arbitrary: st)
  case Nil
  then show ?case by simp
next
  case (Cons m0 ms)
  from Cons.prems(1) obtain st1 st2 where
    c: "cell_loop P S results tf m0 cts st = Inr st1" and
    s: "sample_loop P S results tf m0 (index tf) st1 = Inr st2" and
    r: "method_loop P S results cts tf ms st2 = Inr st'"
    by (rule method_step)
  from Cons.prems(2) have ne: "m \<noteq> m0" and nin: "m \<notin> set ms" by auto
  from Cons.IH[OF r nin] cell_loop_inv[OF c] sample_loop_inv[OF s] ne
  show ?case by simp
qed

lemma method_loop_cell:
  assumes "method_loop P S results cts tf ms st = Inr st'" "cts = [] \<longrightarrow> cell st = None"
  shows "cts = [] \<longrightarrow> cell st' = None"
  using assms
proof (induction ms arbitrary: st)
  case Nil
  then show ?case by simp
next
  case (Cons m0 ms)
  from Cons.prems(1) obtain st1 st2 where
    c: "cell_loop P S results tf m0 cts st = Inr st1" and
    s: "sample_loop P S results tf m0 (index tf) st1 = Inr st2" and
    r: "method_loop P S results cts tf ms st2 = Inr st'"
    by (rule method_step)
  have "cts = [] \<longrightarrow> cell st2 = None"
    using cell_loop_inv[OF c] sample_loop_inv[OF s] Cons.prems(2) by simp
  from Cons.IH[OF r this] show ?case .
qed

lemma method_loop_inv:
  assumes "method_loop P S results cts tf ms st = Inr st'" "cts = [] \<longrightarrow> cell st = None"
    "m \<in> set ms" "i \<in> set (index tf)"
  shows "cts \<noteq> [] \<and>
         corr_val P results tf m (Some (last cts)) \<noteq> None \<and>
         corr_val S results tf m (Some (last cts)) \<noteq> None \<and>
         entries (p_corr_per_sample st') (i, m) = corr_val P results tf m (Some (last cts)) \<and>
         entries (s_corr_per_sample st') (i, m) = corr_val S results tf m (Some (last cts)) \<and>
         entries (p_corr_per_cell st') (last cts, m) = corr_val P results tf m (Some (last cts)) \<and>
         entries (s_corr_per_cell st') (last cts, m) = corr_val S results tf m (Some (last cts))"
  using assms
proof (induction ms arbitrary: st)
  case Nil
  then show ?case by simp
next
  case (Cons m0 ms)
  from Cons.prems(1) obtain st1 st2 where
    c: "cell_loop P S results tf m0 cts st = Inr st1" and
    s: "sample_loop P S results tf m0 (index tf) st1 = Inr st2" and
    r: "method_loop P S results cts tf ms st2 = Inr st'"
    by (rule method_step)
  note ci = cell_loop_inv[OF c] and si = sample_loop_inv[OF s]
  have inv2: "cts = [] \<longrightarrow> cell st2 = None"
    using ci si Cons.prems(2) by simp
  show ?case
  proof (cases "m \<in> set ms")
    case True
    from Cons.IH[OF r inv2 True Cons.prems(4)] show ?thesis .
  next
    case False
    with Cons.prems(3) have mm: "m = m0" by simp
    have idx: "index tf \<noteq> []" using Cons.prems(4) by auto
    have nn: "corr_val P results tf m (cell st1) \<noteq> None"
      using si idx mm by simp
    have cne: "cts \<noteq> []"
    proof
      assume "cts = []"
      with ci Cons.prems(2) have "cell st1 = None" by simp
      with nn show False by simp
    qed
    with ci have c1: "cell st1 = Some (last cts)" by simp
    have lst: "last cts \<in> set cts" using cne by simp
    from method_loop_other[OF r False, of i "last cts"] ci si mm c1 lst cne idx
      Cons.prems(4)
    show ?thesis by simp
  qed
qed

lemma cell_loop_returns:
  assumes "\<forall>c\<in>set cts. (\<exists>v. corr_expr P results tf m (Some c) = Inr v) \<and>
                        (\<exists>v. corr_expr S results tf m (Some c) = Inr v)"
  shows "\<exists>st'. cell_loop P S results tf m cts st = Inr st'"
  using assms
proof (induction cts arbitrary: st)
  case Nil
  then show ?case by simp
next
  case (Cons c cs)
  from Cons.prems obtain p s where
    "corr_expr P results tf m (Some c) = Inr p" "corr_expr S results tf m (Some c) = Inr s"
    by auto
  moreover have "\<forall>c\<in>set cs. (\<exists>v. corr_expr P results tf m (Some c) = Inr v) \<and>
                        (\<exists>v. corr_expr S results tf m (Some c) = Inr v)"
    using Cons.prems by simp
  ultimately show ?case using Cons.IH by simp
qed

lemma sample_loop_returns:
  assumes "corr_expr P results tf m (cell st) = Inr p"
          "corr_expr S results tf m (cell st) = Inr s"
  shows "\<exists>st'. sample_loop P S results tf m idx st = Inr st'"
  using assms
proof (induction idx arbitrary: st)
  case Nil
  then show ?case by simp
next
  case (Cons i "is")
  have "cell (st\<lparr>p_corr_per_sample := loc_set (p_corr_per_sample st) i m p,
                     s_corr_per_sample := loc_set (s_corr_per_sample st) i m s\<rparr>) = cell st"
    by simp
  with Cons.prems Cons.IH[of "st\<lparr>p_corr_per_sample := loc_set (p_corr_per_sample st) i m p,
                     s_corr_per_sample := loc_set (s_corr_per_sample st) i m s\<rparr>"]
  show ?case by simp
qed

lemma method_loop_returns:
  assumes "\<forall>m\<in>set ms. \<forall>c\<in>set cts. (\<exists>v. corr_expr P results tf m (Some c) = Inr v) \<and>
                        (\<exists>v. corr_expr S results tf m (Some c) = Inr v)"
    "cts \<noteq> []"
  shows "\<exists>st'. method_loop P S results cts tf ms st = Inr st'"
  using assms
proof (induction ms arbitrary: st)
  case Nil
  then show ?case by simp
next
  case (Cons m ms)
  have all: "\<forall>c\<in>set cts. (\<exists>v. corr_expr P results tf m (Some c) = Inr v) \<and>
                        (\<exists>v. corr_expr S results tf m (Some c) = Inr v)"
    using Cons.prems(1) by simp
  from cell_loop_returns[OF all] obtain st1 where
    c: "cell_loop P S results tf m cts st = Inr st1" by blast
  from cell_loop_inv[OF c] Cons.prems(2) have c1: "cell st1 = Some (last cts)" by simp
  have "last cts \<in> set cts" using Cons.prems(2) by simp
  with all c1 obtain p s where
    "corr_expr P results tf m (cell st1) = Inr p" "corr_expr S results tf m (cell st1) = Inr s"
    by auto
  from sample_loop_returns[OF this] obtain st2 where
    s: "sample_loop P S results tf m (index tf) st1 = Inr st2" by blast
  have "\<forall>m\<in>set ms. \<forall>c\<in>set cts. (\<exists>v. corr_expr P results tf m (Some c) = Inr v) \<and>
                        (\<exists>v. corr_expr S results tf m (Some c) = Inr v)"
    using Cons.prems(1) by simp
  from Cons.IH[OF this Cons.prems(2), of st2] c s show ?case by simp
qed



text \<open>
  C9. The function returns whenever both correlations can be computed for every method
  and category and there is at least one category. Whenever it returns, for each method
  every sample's entry of the per-sample Pearson table is the absolute value of the
  coefficient computed for the last category (the value of \<open>cell\<close> left by the loop over
  the categories), which is also that method's entry for that category in the
  per-category table; the same holds for the Spearman tables. So the rows of a
  per-sample table are all the same.
\<close>

theorem corr_table_per_sample:
  "((\<forall>m\<in>set methods. \<forall>c\<in>set cts.
        (\<exists>v. corr_expr P results tf m (Some c) = Inr v) \<and>
        (\<exists>v. corr_expr S results tf m (Some c) = Inr v)) \<and> cts \<noteq> [] \<longrightarrow>
      (\<exists>r. corr_table P S methods results cts tf = Inr r)) \<and>
   (\<forall>pc ps sc ss. corr_table P S methods results cts tf = Inr (pc, ps, sc, ss) \<longrightarrow>
      (\<forall>m\<in>set methods. \<forall>i\<in>set (index tf).
         cts \<noteq> [] \<and>
         (\<exists>v. corr_expr P results tf m (Some (last cts)) = Inr v \<and>
              entries ps (i, m) = Some \<bar>v\<bar> \<and> entries pc (last cts, m) = Some \<bar>v\<bar>) \<and>
         (\<exists>v. corr_expr S results tf m (Some (last cts)) = Inr v \<and>
              entries ss (i, m) = Some \<bar>v\<bar> \<and> entries sc (last cts, m) = Some \<bar>v\<bar>)))"
proof (intro conjI impI allI ballI)
  assume "(\<forall>m\<in>set methods. \<forall>c\<in>set cts.
        (\<exists>v. corr_expr P results tf m (Some c) = Inr v) \<and>
        (\<exists>v. corr_expr S results tf m (Some c) = Inr v)) \<and> cts \<noteq> []"
  then have a: "\<forall>m\<in>set methods. \<forall>c\<in>set cts.
        (\<exists>v. corr_expr P results tf m (Some c) = Inr v) \<and>
        (\<exists>v. corr_expr S results tf m (Some c) = Inr v)" and b: "cts \<noteq> []" by blast+
  from method_loop_returns[OF a b] show "\<exists>r. corr_table P S methods results cts tf = Inr r"
    by (simp add: corr_table_def split: sum.splits) (metis sum.exhaust_sel sum.disc(1) sum.collapse(1) sum.distinct(1))
next
  fix pc ps sc ss m i
  assume r: "corr_table P S methods results cts tf = Inr (pc, ps, sc, ss)"
    and m: "m \<in> set methods" and i: "i \<in> set (index tf)"
  from r obtain st where
    ml: "method_loop P S results cts tf methods
             \<lparr>p_corr_per_cell = empty_frame cts methods,
              p_corr_per_sample = empty_frame (index tf) methods,
              s_corr_per_cell = empty_frame cts methods,
              s_corr_per_sample = empty_frame (index tf) methods,
              cell = None\<rparr> = Inr st"
    and pc: "pc = np_abs (p_corr_per_cell st)" and ps: "ps = np_abs (p_corr_per_sample st)"
    and sc: "sc = np_abs (s_corr_per_cell st)" and ss: "ss = np_abs (s_corr_per_sample st)"
    by (auto simp: corr_table_def split: sum.splits)
  have inv: "cts \<noteq> [] \<and>
         corr_val P results tf m (Some (last cts)) \<noteq> None \<and>
         corr_val S results tf m (Some (last cts)) \<noteq> None \<and>
         entries (p_corr_per_sample st) (i, m) = corr_val P results tf m (Some (last cts)) \<and>
         entries (s_corr_per_sample st) (i, m) = corr_val S results tf m (Some (last cts)) \<and>
         entries (p_corr_per_cell st) (last cts, m) = corr_val P results tf m (Some (last cts)) \<and>
         entries (s_corr_per_cell st) (last cts, m) = corr_val S results tf m (Some (last cts))"
    by (rule method_loop_inv[OF ml _ m i]) simp
  then show "cts \<noteq> []" by simp
  from inv obtain v where v: "corr_val P results tf m (Some (last cts)) = Some v" by auto
  with inv show "\<exists>v. corr_expr P results tf m (Some (last cts)) = Inr v \<and>
              entries ps (i, m) = Some \<bar>v\<bar> \<and> entries pc (last cts, m) = Some \<bar>v\<bar>"
    by (auto simp: corr_val_Some pc ps np_abs_def)
  from inv obtain w where w: "corr_val S results tf m (Some (last cts)) = Some w" by auto
  with inv show "\<exists>v. corr_expr S results tf m (Some (last cts)) = Inr v \<and>
              entries ss (i, m) = Some \<bar>v\<bar> \<and> entries sc (last cts, m) = Some \<bar>v\<bar>"
    by (auto simp: corr_val_Some sc ss np_abs_def)
qed

theorem corr_table_per_sample_witness:
  "(case corr_table (\<lambda>x y. Inr (- 1/2)) (\<lambda>x y. Inr (1/4)) [''A''] [''A'' \<mapsto> M1] [''T''] E1 of
      Inl e \<Rightarrow> False
    | Inr (pc, ps, sc, ss) \<Rightarrow>
        entries ps (''s1'', ''A'') = Some (1/2) \<and> entries ps (''s2'', ''A'') = Some (1/2) \<and>
        entries pc (''T'', ''A'') = Some (1/2) \<and> entries ss (''s1'', ''A'') = Some (1/4))"
  using corr_table_per_sample [of "[''A'']" "[''T'']" "\<lambda>x y. Inr (- 1/2)" "[''A'' \<mapsto> M1]" E1
      "\<lambda>x y. Inr (1/4)"]
  by (simp add: corr_table_def corr_expr_def column_of_def M1_def E1_def loc_set_def
      np_abs_def empty_frame_def)


section \<open>Variance threshold\<close>

















text \<open>
  The selection is made by label, so with repeated row labels a row below the threshold
  comes back with its namesake above it.
\<close>

lemma variance_threshold_selector_duplicate_labels:
  "variance_threshold_selector
     \<lparr>index = [''g'', ''g''], columns = [''s1'', ''s2''], vals = [[1, 5], [1, 1]]\<rparr> (1/2)
   = Inr \<lparr>index = [''g'', ''g''], columns = [''s1'', ''s2''], vals = [[1, 5], [1, 1]]\<rparr>"
  by (simp add: variance_threshold_selector_def selector_fit_def transposed_def
      Let_def check_array_def tr_def ncols_def feature_variance_def variance_def mean_def
      get_support_def select_columns_def power2_eq_square upt_conv_Cons)


section \<open>Shared genes\<close>

lemma labelled_rows_fst:
  "length (vals df) = length (index df) \<Longrightarrow> map fst (labelled_rows df) = index df"
  by (simp add: labelled_rows_def)

lemma set_merge_index: "set (merge_index a b) = set (index a) \<inter> set (index b)"
  by (auto simp: merge_index_def)

lemma map_insort_key: "map f (insort_key f x xs) = insort (f x) (map f xs)"
  by (induction xs) simp_all

lemma map_sort_key: "map f (sort_key f xs) = sort (map f xs)"
  by (induction xs) (simp_all add: map_insort_key)

lemma index_sort_index:
  "length (vals df) = length (index df) \<Longrightarrow> index (sort_index df) = sort (index df)"
  by (simp add: sort_index_def Let_def map_sort_key labelled_rows_fst)

lemma columns_sort_index [simp]: "columns (sort_index df) = columns df"
  by (simp add: sort_index_def Let_def)

lemma labelled_rows_sort_index:
  "set (labelled_rows (sort_index df)) = set (labelled_rows df)"
  by (simp add: sort_index_def Let_def labelled_rows_def zip_map_fst_snd)

lemma loc_rows_Inr:
  assumes "set labels \<subseteq> set (index df)"
  shows "loc_rows df labels =
     Inr \<lparr>index = map fst (rows_for df labels), columns = columns df,
          vals = map snd (rows_for df labels)\<rparr>"
  using assms by (auto simp: loc_rows_def Let_def)

lemma fst_rows_for:
  assumes "length (vals df) = length (index df)"
  shows "map fst (rows_for df labels) =
         concat (map (\<lambda>k. filter (\<lambda>l. l = k) (index df)) labels)"
proof -
  have "\<And>k. map fst (filter (\<lambda>(l, row). l = k) (labelled_rows df))
         = filter (\<lambda>l. l = k) (index df)"
  proof -
    fix k
    have "filter (\<lambda>l. l = k) (map fst (labelled_rows df))
          = map fst (filter (\<lambda>(l, row). l = k) (labelled_rows df))"
      by (simp add: filter_map comp_def case_prod_unfold)
    then show "map fst (filter (\<lambda>(l, row). l = k) (labelled_rows df))
         = filter (\<lambda>l. l = k) (index df)"
      using labelled_rows_fst[OF assms] by simp
  qed
  then show ?thesis by (simp add: rows_for_def map_concat comp_def)
qed

lemma set_rows_for: "set (rows_for df labels) \<subseteq> set (labelled_rows df)"
  by (auto simp: rows_for_def)

lemma filter_eq_distinct:
  "distinct xs \<Longrightarrow> filter (\<lambda>l. l = k) xs = (if k \<in> set xs then [k] else [])"
  by (induction xs) auto

lemma concat_filter_distinct:
  "distinct xs \<Longrightarrow> set ks \<subseteq> set xs \<Longrightarrow>
   concat (map (\<lambda>k. filter (\<lambda>l. l = k) xs) ks) = ks"
  by (induction ks) (simp_all add: filter_eq_distinct)

lemma concat_if_filter:
  "concat (map (\<lambda>k. if P k then [k] else []) xs) = filter P xs"
  by (induction xs) simp_all

lemma merge_index_distinct:
  assumes "distinct (index b)"
  shows "merge_index a b = filter (\<lambda>k. k \<in> set (index b)) (index a)"
proof -
  have "merge_index a b = concat (map (\<lambda>k. if k \<in> set (index b) then [k] else []) (index a))"
    by (simp add: merge_index_def filter_eq_distinct[OF assms])
  also have "\<dots> = filter (\<lambda>k. k \<in> set (index b)) (index a)"
    by (rule concat_if_filter)
  finally show ?thesis .
qed


lemma keep_common_genes_result:
  assumes "length (vals rna) = length (index rna)" "length (vals sig) = length (index sig)"
  shows "keep_common_genes rna sig =
     Inr (sort_index \<lparr>index = map fst (rows_for rna (merge_index rna sig)),
             columns = columns rna, vals = map snd (rows_for rna (merge_index rna sig))\<rparr>,
          sort_index \<lparr>index = map fst (rows_for sig (merge_index rna sig)),
             columns = columns sig, vals = map snd (rows_for sig (merge_index rna sig))\<rparr>)"
proof -
  have a: "set (merge_index rna sig) \<subseteq> set (index rna)"
    and b: "set (merge_index rna sig) \<subseteq> set (index sig)"
    by (simp_all add: set_merge_index)
  show ?thesis
    by (simp add: keep_common_genes_def Let_def loc_rows_Inr[OF a] loc_rows_Inr[OF b])
qed

lemma index_reduced:
  assumes "length (vals df) = length (index df)"
  shows "index (sort_index \<lparr>index = map fst (rows_for df ks),
             columns = columns df, vals = map snd (rows_for df ks)\<rparr>)
         = sort (concat (map (\<lambda>k. filter (\<lambda>l. l = k) (index df)) ks))"
proof -
  let ?df = "\<lparr>index = map fst (rows_for df ks),
             columns = columns df, vals = map snd (rows_for df ks)\<rparr>"
  have "length (vals ?df) = length (index ?df)" by simp
  from index_sort_index[OF this] have "index (sort_index ?df) = sort (map fst (rows_for df ks))"
    by simp
  then show ?thesis unfolding fst_rows_for[OF assms] .
qed

lemma set_concat_filter:
  "set (concat (map (\<lambda>k. filter (\<lambda>l. l = k) xs) ks)) = set ks \<inter> set xs"
  by auto

text \<open>
  C2, as the code has it. For all well-formed tables the function returns two tables
  whose row-label sets are both the intersection of the inputs' row-label sets, each
  sorted by row label, with the columns of the respective input and rows taken from it.
  When the row labels of each input are distinct, the two returned indexes are the same
  list, so row \<open>i\<close> of one and row \<open>i\<close> of the other are the same gene.
\<close>

theorem keep_common_genes_aligned:
  assumes "wf_frame rna" "wf_frame sig"
  shows "\<exists>A B. keep_common_genes rna sig = Inr (A, B) \<and>
           set (index A) = set (index rna) \<inter> set (index sig) \<and>
           set (index B) = set (index rna) \<inter> set (index sig) \<and>
           sorted (index A) \<and> sorted (index B) \<and>
           columns A = columns rna \<and> columns B = columns sig \<and>
           set (labelled_rows A) \<subseteq> set (labelled_rows rna) \<and>
           set (labelled_rows B) \<subseteq> set (labelled_rows sig) \<and>
           (distinct (index rna) \<and> distinct (index sig) \<longrightarrow>
              index A = index B \<and> distinct (index A))"
proof -
  let ?ks = "merge_index rna sig"
  let ?A = "sort_index \<lparr>index = map fst (rows_for rna ?ks),
             columns = columns rna, vals = map snd (rows_for rna ?ks)\<rparr>"
  let ?B = "sort_index \<lparr>index = map fst (rows_for sig ?ks),
             columns = columns sig, vals = map snd (rows_for sig ?ks)\<rparr>"
  have la: "length (vals rna) = length (index rna)" using assms(1) by (simp add: wf_frame_def)
  have lb: "length (vals sig) = length (index sig)" using assms(2) by (simp add: wf_frame_def)
  have r: "keep_common_genes rna sig = Inr (?A, ?B)"
    by (rule keep_common_genes_result[OF la lb])
  have ia: "index ?A = sort (concat (map (\<lambda>k. filter (\<lambda>l. l = k) (index rna)) ?ks))"
    by (rule index_reduced[OF la])
  have ib: "index ?B = sort (concat (map (\<lambda>k. filter (\<lambda>l. l = k) (index sig)) ?ks))"
    by (rule index_reduced[OF lb])
  have sa: "set (index ?A) = set (index rna) \<inter> set (index sig)"
    unfolding ia by (auto simp: set_merge_index)
  have sb: "set (index ?B) = set (index rna) \<inter> set (index sig)"
    unfolding ib by (auto simp: set_merge_index)
  have so: "sorted (index ?A)" "sorted (index ?B)" unfolding ia ib by simp_all
  have ra: "set (labelled_rows ?A) \<subseteq> set (labelled_rows rna)"
    using set_rows_for[of rna ?ks]
    by (simp add: labelled_rows_sort_index) (simp add: labelled_rows_def zip_map_fst_snd)
  have rb: "set (labelled_rows ?B) \<subseteq> set (labelled_rows sig)"
    using set_rows_for[of sig ?ks]
    by (simp add: labelled_rows_sort_index) (simp add: labelled_rows_def zip_map_fst_snd)
  have di: "distinct (index rna) \<and> distinct (index sig) \<longrightarrow>
              index ?A = index ?B \<and> distinct (index ?A)"
  proof
    assume d: "distinct (index rna) \<and> distinct (index sig)"
    then have da: "distinct (index rna)" and db: "distinct (index sig)" by simp_all
    have ks: "?ks = filter (\<lambda>k. k \<in> set (index sig)) (index rna)"
      by (rule merge_index_distinct[OF db])
    have dk: "distinct ?ks" unfolding ks using da by simp
    have ka: "set ?ks \<subseteq> set (index rna)" and kb: "set ?ks \<subseteq> set (index sig)"
      by (simp_all add: set_merge_index)
    have "index ?A = sort ?ks" unfolding ia concat_filter_distinct[OF da ka] ..
    moreover have "index ?B = sort ?ks" unfolding ib concat_filter_distinct[OF db kb] ..
    ultimately show "index ?A = index ?B \<and> distinct (index ?A)" using dk by simp
  qed
  have col: "columns ?A = columns rna" "columns ?B = columns sig" by simp_all
  show ?thesis
    by (rule exI[of _ ?A], rule exI[of _ ?B]) (intro conjI r sa sb so col ra rb di)
qed

theorem keep_common_genes_aligned_witness:
  "wf_frame K1 \<and> wf_frame K2 \<and> distinct (index K1) \<and> distinct (index K2) \<and>
   keep_common_genes K1 K2 =
     Inr (\<lparr>index = [''a'', ''c''], columns = [''p1''], vals = [[1], [3]]\<rparr>,
          \<lparr>index = [''a'', ''c''], columns = [''T''], vals = [[10], [30]]\<rparr>)"
  using keep_common_genes_aligned [of K1 K2]
  by (simp add: keep_common_genes_def K1_def K2_def merge_index_def loc_rows_def
      rows_for_def labelled_rows_def sort_index_def Let_def wf_frame_def)

text \<open>
  C2 as stated fails for repeated row labels: \<open>K3\<close> has the gene \<open>a\<close> twice, the join
  pairs each of its rows with the signature's row, and the label-based selection then
  returns four rows for it from \<open>K3\<close> and two from \<open>K2\<close>; row 2 is gene \<open>a\<close> on one side
  and gene \<open>c\<close> on the other.
\<close>

theorem keep_common_genes_counterexample:
  "keep_common_genes K3 K2 =
     Inr (\<lparr>index = [''a'', ''a'', ''a'', ''a'', ''c''], columns = [''p1''],
            vals = [[1], [2], [1], [2], [3]]\<rparr>,
          \<lparr>index = [''a'', ''a'', ''c''], columns = [''T''], vals = [[10], [10], [30]]\<rparr>) \<and>
   [''a'', ''a'', ''a'', ''a'', ''c''] ! 2 \<noteq> [''a'', ''a'', ''c''] ! 2"
  by (simp add: keep_common_genes_def K3_def K2_def merge_index_def loc_rows_def
      rows_for_def labelled_rows_def sort_index_def Let_def)


section \<open>Up- and down-regulated genes\<close>















section \<open>Top-ranked genes\<close>

















end
